theory Spec2Isabelle
  imports Main
begin

section \<open>Strings of the host language\<close>

text \<open>
  Python strings are modelled as \<^typ>\<open>string\<close>. Three characters that cannot be typed
  inside a literal are given names.
\<close>

abbreviation nl :: string where "nl \<equiv> [CHR 0x0A]"
abbreviation sq :: string where "sq \<equiv> [CHR 0x27]"
abbreviation dq :: string where "dq \<equiv> [CHR 0x22]"

text \<open>
  \<open>str(n)\<close> of an integer: decimal digits, a minus sign for negative numbers.
\<close>

fun str_nat :: "nat \<Rightarrow> string" where
  "str_nat n = (if n < 10 then [''0123456789'' ! n]
                else str_nat (n div 10) @ [''0123456789'' ! (n mod 10)])"

declare str_nat.simps [simp del]

definition str_int :: "int \<Rightarrow> string" where
  "str_int i = (if i < 0 then ''-'' @ str_nat (nat (- i)) else str_nat (nat i))"

text \<open>
  \<open>repr(s)\<close> of a string, as the \<open>!r\<close> conversion of an f-string applies it: the text
  between single quotes, or between double quotes when it holds a single quote and no
  double quote; the quote character and the backslash are escaped, and so are newline,
  carriage return and tab. Other control characters and non-ASCII text are outside this
  model; the configured file names and URLs are printable ASCII.
\<close>

definition repr_char :: "char \<Rightarrow> char \<Rightarrow> string" where
  "repr_char q c =
     (if c = q \<or> c = CHR 0x5C then [CHR 0x5C, c]
      else if c = CHR 0x0A then [CHR 0x5C, CHR ''n'']
      else if c = CHR 0x0D then [CHR 0x5C, CHR ''r'']
      else if c = CHR 0x09 then [CHR 0x5C, CHR ''t'']
      else [c])"

definition py_repr :: "string \<Rightarrow> string" where
  "py_repr s =
     (let q = (if List.member s (CHR 0x27) \<and> \<not> List.member s (CHR 0x22)
               then CHR 0x22 else CHR 0x27)
      in [q] @ concat (map (repr_char q) s) @ [q])"

section \<open>config.py\<close>

definition SVCS_CSV_FILE :: string where
  "SVCS_CSV_FILE = ''data/services-2023.csv.gz''"
definition SVCS_CSV_URL :: string where
  "SVCS_CSV_URL = ''https://blobs.duckdb.org/nl-railway/services-2023.csv.gz''"
definition STAT_CSV_FILE :: string where
  "STAT_CSV_FILE = ''data/stations-2022-01.csv''"
definition STAT_CSV_URL :: string where
  "STAT_CSV_URL = ''https://blobs.duckdb.org/data/stations-2022-01.csv''"
definition DIST_CSV_FILE :: string where
  "DIST_CSV_FILE = ''data/tariff-distances-2022-01.csv''"
definition DIST_CSV_URL :: string where
  "DIST_CSV_URL = ''https://blobs.duckdb.org/data/tariff-distances-2022-01.csv''"

definition SVCS_TBL_NAME :: string where
  "SVCS_TBL_NAME = ''services''"
definition SVCS_BY_MONTH_TBL_NAME :: string where
  "SVCS_BY_MONTH_TBL_NAME = ''services_per_month''"
definition STAT_TBL_NAME :: string where
  "STAT_TBL_NAME = ''stations''"
definition DIST_TBL_NAME :: string where
  "DIST_TBL_NAME = ''distances''"
definition DIST_LNG_TBL_NAME :: string where
  "DIST_LNG_TBL_NAME = ''distances_long''"

lemmas config_defs =
  SVCS_CSV_FILE_def SVCS_CSV_URL_def STAT_CSV_FILE_def STAT_CSV_URL_def
  DIST_CSV_FILE_def DIST_CSV_URL_def
  SVCS_TBL_NAME_def SVCS_BY_MONTH_TBL_NAME_def STAT_TBL_NAME_def DIST_TBL_NAME_def
  DIST_LNG_TBL_NAME_def

section \<open>Errors\<close>

text \<open>
  The exceptions a caller can see. \<open>ErrNoResults\<close> is the class imported from the
  \<open>errors\<close> module; \<open>Exception msg\<close> is the built-in class raised with a message by
  \<open>create_tbl\<close>, \<open>add_cte\<close> and \<open>with_rows\<close>; \<open>EngineError msg\<close> is whatever the
  database engine raises, passed on unchanged.
\<close>

datatype error = ErrNoResults | Exception string | EngineError string

section \<open>writer.py\<close>

text \<open>
  The table class of the rendering library is external. It is modelled by what the
  builder does to it: the title it was created with, the headers handed to
  \<open>add_column\<close> and the cell lists handed to \<open>add_row\<close>, each in call order.
\<close>

record Table =
  title :: string
  columns :: "string list"
  table_rows :: "string list list"

definition Table_init :: "string \<Rightarrow> Table" where
  "Table_init t = \<lparr>title = t, columns = [], table_rows = []\<rparr>"

definition add_column :: "Table \<Rightarrow> string \<Rightarrow> Table" where
  "add_column t name = t\<lparr>columns := columns t @ [name]\<rparr>"

definition add_row :: "Table \<Rightarrow> string list \<Rightarrow> Table" where
  "add_row t cells = t\<lparr>table_rows := table_rows t @ [cells]\<rparr>"

text \<open>
  \<open>TableMaker\<close>: \<open>cols\<close> holds the declared names (the source stores each as a
  1-tuple and unpacks it again in \<open>build\<close>). \<open>rows\<close> holds one generator per accepted
  row: \<open>(str(data) for data in row)\<close> is lazy, so what is stored is the list of cells
  the generator has still to convert; unpacking it in \<open>build\<close> converts them and leaves
  the generator exhausted. The cell type and its \<open>str\<close> are parameters.
\<close>

record 'v TableMaker =
  table :: Table
  cols :: "string list"
  rows :: "'v list list"

definition TableMaker_init :: "string \<Rightarrow> 'v TableMaker" where
  "TableMaker_init t = \<lparr>table = Table_init t, cols = [], rows = []\<rparr>"

definition with_column :: "'v TableMaker \<Rightarrow> string \<Rightarrow> 'v TableMaker" where
  "with_column tm name = tm\<lparr>cols := cols tm @ [name]\<rparr>"

text \<open>
  \<open>with_rows\<close> checks and appends row by row; the exception leaves the loop with the
  rows appended so far still in \<open>self.rows\<close>. The result is the exception raised
  (\<open>None\<close> when the method returns \<open>self\<close>) and the builder afterwards.
\<close>

fun with_rows :: "'v TableMaker \<Rightarrow> 'v list list \<Rightarrow> error option \<times> 'v TableMaker" where
  "with_rows tm [] = (None, tm)"
| "with_rows tm (row # rest) =
     (if length row \<noteq> length (cols tm)
      then (Some (Exception (''Mismatched column count: got '' @ str_nat (length row) @
                             '', expected '' @ str_nat (length (cols tm)))), tm)
      else with_rows (tm\<lparr>rows := rows tm @ [row]\<rparr>) rest)"

text \<open>
  \<open>build\<close> adds every declared column and every stored row to \<open>self.table\<close> and
  returns that same object; nothing marks the builder as finished. The result is the
  table returned and the builder afterwards (its generators exhausted).
\<close>

definition build :: "('v \<Rightarrow> string) \<Rightarrow> 'v TableMaker \<Rightarrow> Table \<times> 'v TableMaker" where
  "build str tm =
     (let t1 = foldl add_column (table tm) (cols tm);
          t2 = foldl (\<lambda>t row. add_row t (map str row)) t1 (rows tm)
      in (t2, tm\<lparr>table := t2, rows := map (\<lambda>row. []) (rows tm)\<rparr>))"

section \<open>main.py: the text of the queries\<close>

text \<open>
  Each definition below is one triple-quoted f-string of the source, line by line, with
  its leading newline and its indentation; an interpolated expression is the argument or
  constant of the same name.
\<close>

text \<open>The defining query registered for \<open>SVCS_BY_MONTH_TBL_NAME\<close>.\<close>

definition svcs_by_month_subqry :: "string \<Rightarrow> string" where
  "svcs_by_month_subqry services_file =
     nl @
     ''            SELECT'' @ nl @
     ''                month('' @ dq @ ''Service:Date'' @ dq @ '') AS month,'' @ nl @
     ''                '' @ dq @ ''Stop:station name'' @ dq @ '' AS station,'' @ nl @
     ''                count(*) AS num_services'' @ nl @
     ''            FROM '' @ py_repr services_file @ nl @
     ''            GROUP BY ALL'' @ nl @
     ''            ''"

text \<open>The defining query registered for \<open>DIST_LNG_TBL_NAME\<close>.\<close>

definition dist_lng_subqry :: "string" where
  "dist_lng_subqry =
     nl @
     ''            UNPIVOT '' @ DIST_TBL_NAME @ nl @
     ''            ON COLUMNS (* EXCLUDE station)'' @ nl @
     ''            INTO NAME other_station VALUE distance'' @ nl @
     ''            ''"

text \<open>The three one-line defining queries.\<close>

definition svcs_subqry :: "string \<Rightarrow> string" where
  "svcs_subqry services_file = ''FROM '' @ py_repr services_file"

definition stat_subqry :: "string \<Rightarrow> string" where
  "stat_subqry stations_file = ''FROM '' @ py_repr stations_file"

definition dist_subqry :: "string \<Rightarrow> string" where
  "dist_subqry distances_file =
     ''FROM read_csv('' @ py_repr distances_file @ '', nullstr='' @ sq @ ''XXX'' @ sq @ '')''"

text \<open>The statement \<open>create_tbl\<close> executes.\<close>

definition create_tbl_stmt :: "string \<Rightarrow> string \<Rightarrow> string" where
  "create_tbl_stmt tbl subqry =
     nl @
     ''        CREATE TABLE '' @ tbl @ '' AS ('' @ subqry @ '')'' @ nl @
     ''        ''"

text \<open>The text \<open>add_cte\<close> returns.\<close>

definition cte_text :: "string \<Rightarrow> string \<Rightarrow> string \<Rightarrow> string" where
  "cte_text tbl subqry qry =
     nl @
     ''        WITH '' @ tbl @ '' AS ('' @ subqry @ '')'' @ nl @
     ''        '' @ qry @ nl @
     ''        ''"

text \<open>\<open>qry\<close> of \<open>get_busiest_by_month\<close>.\<close>

definition busiest_by_month_qry :: "string" where
  "busiest_by_month_qry =
     nl @
     ''        SELECT'' @ nl @
     ''            month,'' @ nl @
     ''            arg_max(station, num_services) AS station,'' @ nl @
     ''            max(num_services) AS num_services'' @ nl @
     ''        FROM '' @ SVCS_BY_MONTH_TBL_NAME @ nl @
     ''        WHERE month <= $1'' @ nl @
     ''        GROUP BY ALL;'' @ nl @
     ''        ''"

text \<open>\<open>qry\<close> of \<open>get_top_n_stations_in_period\<close>.\<close>

definition top_n_stations_qry :: "string" where
  "top_n_stations_qry =
     nl @
     ''        SELECT month, month_name, array_agg(station) AS top_stations'' @ nl @
     ''        FROM ('' @ nl @
     ''            SELECT'' @ nl @
     ''                month,'' @ nl @
     ''                strftime(make_date(2023, month, 1), '' @ sq @ ''%B'' @ sq @ '') AS month_name,'' @ nl @
     ''                rank() OVER'' @ nl @
     ''                    (PARTITION BY month ORDER BY num_services DESC) AS rank,'' @ nl @
     ''                station,'' @ nl @
     ''                num_services'' @ nl @
     ''            FROM '' @ SVCS_BY_MONTH_TBL_NAME @ nl @
     ''            WHERE month BETWEEN $1 AND $2'' @ nl @
     ''        )'' @ nl @
     ''        WHERE rank <= $3'' @ nl @
     ''        GROUP BY ALL'' @ nl @
     ''        ORDER BY month;'' @ nl @
     ''        ''"

text \<open>\<open>qry\<close> of \<open>get_stations\<close>.\<close>

definition stations_qry :: "string" where
  "stations_qry =
     nl @
     ''        SELECT'' @ nl @
     ''            id,'' @ nl @
     ''            name_short,'' @ nl @
     ''            name_long,'' @ nl @
     ''            country,'' @ nl @
     ''            printf('' @ sq @ ''%.2f'' @ sq @ '', geo_lat) AS latitude,'' @ nl @
     ''            printf('' @ sq @ ''%.2f'' @ sq @ '', geo_lng) AS longitude'' @ nl @
     ''        FROM '' @ STAT_TBL_NAME @ nl @
     ''        LIMIT $1'' @ nl @
     ''        ''"

text \<open>\<open>qry\<close> of \<open>get_distances\<close>.\<close>

definition distances_qry :: "string" where
  "distances_qry =
     nl @
     ''        SELECT station, other_station, distance'' @ nl @
     ''        FROM '' @ DIST_LNG_TBL_NAME @ nl @
     ''        LIMIT $1'' @ nl @
     ''        ''"

text \<open>\<open>qry\<close> of \<open>get_station_pairs\<close>; the \<open>order\<close> argument is interpolated into the text.\<close>

definition station_pairs_qry :: "string \<Rightarrow> string" where
  "station_pairs_qry order =
     nl @
     ''        SELECT'' @ nl @
     ''            s1.name_long AS station1,'' @ nl @
     ''            s2.name_long AS station2,'' @ nl @
     ''            '' @ DIST_LNG_TBL_NAME @ ''.distance'' @ nl @
     ''        FROM '' @ DIST_LNG_TBL_NAME @ nl @
     ''        JOIN'' @ nl @
     ''            '' @ STAT_TBL_NAME @ '' s1 ON '' @ DIST_LNG_TBL_NAME @ ''.station = s1.code'' @ nl @
     ''        JOIN'' @ nl @
     ''            '' @ STAT_TBL_NAME @ '' s2 ON '' @ DIST_LNG_TBL_NAME @ ''.other_station = s2.code'' @ nl @
     ''        WHERE'' @ nl @
     ''            s1.country = '' @ sq @ ''NL'' @ sq @ nl @
     ''            AND s2.country = '' @ sq @ ''NL'' @ sq @ nl @
     ''            AND station < other_station'' @ nl @
     ''        ORDER BY distance '' @ order @ nl @
     ''        LIMIT $1'' @ nl @
     ''        ''"

section \<open>main.py: the Analyzer\<close>

text \<open>
  The database engine is external. It is a parameter: a function from the state of the
  connection, the text of a statement and the values bound to its placeholders to the
  state afterwards and either the message of the error it raises or the rows it returns.
\<close>

type_synonym ('db, 'v) engine =
  "'db \<Rightarrow> string \<Rightarrow> int list \<Rightarrow> 'db \<times> (string + 'v list list)"

text \<open>
  The fields of an \<open>Analyzer\<close>. \<open>executed\<close> is not a field of the source: it records,
  in order, every call of \<open>self.con.execute\<close> with the text and the bound values it was
  given, so that theorems can speak about the text handed to the engine.
\<close>

record 'db Analyzer =
  mode :: string
  con :: 'db
  executed :: "(string \<times> int list) list"
  services_file :: string
  stations_file :: string
  distances_file :: string
  files :: "string \<rightharpoonup> string"
  subqueries :: "string \<rightharpoonup> string"

definition execute ::
  "('db, 'v) engine \<Rightarrow> 'db Analyzer \<Rightarrow> string \<Rightarrow> int list \<Rightarrow>
     (error + 'v list list) \<times> 'db Analyzer" where
  "execute eng a qry params =
     (case eng (con a) qry params of
        (db', r) \<Rightarrow>
          ((case r of Inl msg \<Rightarrow> Inl (EngineError msg) | Inr result \<Rightarrow> Inr result),
           a\<lparr>con := db', executed := executed a @ [(qry, params)]\<rparr>))"

definition is_remote :: "'db Analyzer \<Rightarrow> bool" where
  "is_remote a = (mode a = ''remote'')"

text \<open>
  \<open>create_tbl\<close>: \<open>not subqry\<close> holds for a missing key and for an empty text.
\<close>

definition create_tbl ::
  "('db, 'v) engine \<Rightarrow> 'db Analyzer \<Rightarrow> string \<Rightarrow> error option \<times> 'db Analyzer" where
  "create_tbl eng a tbl =
     (case subqueries a tbl of
        None \<Rightarrow> (Some (Exception (''No subquery defined for '' @ tbl)), a)
      | Some subqry \<Rightarrow>
          if subqry = [] then (Some (Exception (''No subquery defined for '' @ tbl)), a)
          else (case execute eng a (create_tbl_stmt tbl subqry) [] of
                  (Inl e, a') \<Rightarrow> (Some e, a')
                | (Inr result, a') \<Rightarrow> (None, a')))"

text \<open>One statement after another; an exception ends the sequence.\<close>

definition and_then ::
  "error option \<times> 's \<Rightarrow> ('s \<Rightarrow> error option \<times> 's) \<Rightarrow> error option \<times> 's" where
  "and_then r f = (case r of (Some e, s) \<Rightarrow> (Some e, s) | (None, s) \<Rightarrow> f s)"

definition load_local_data ::
  "('db, 'v) engine \<Rightarrow> 'db Analyzer \<Rightarrow> error option \<times> 'db Analyzer" where
  "load_local_data eng a =
     and_then (and_then (and_then (and_then
       (create_tbl eng a SVCS_TBL_NAME)
       (\<lambda>a. create_tbl eng a SVCS_BY_MONTH_TBL_NAME))
       (\<lambda>a. create_tbl eng a STAT_TBL_NAME))
       (\<lambda>a. create_tbl eng a DIST_TBL_NAME))
       (\<lambda>a. create_tbl eng a DIST_LNG_TBL_NAME)"

text \<open>
  \<open>__init__\<close>: \<open>mode_arg\<close> is \<open>None\<close> when the caller gives no mode, and then the
  default of the signature applies; \<open>db\<close> is the fresh in-memory database of
  \<open>duckdb.connect\<close>.
\<close>

definition Analyzer_init ::
  "('db, 'v) engine \<Rightarrow> 'db \<Rightarrow> string option \<Rightarrow> error option \<times> 'db Analyzer" where
  "Analyzer_init eng db mode_arg =
     (let m = (case mode_arg of None \<Rightarrow> ''remote'' | Some m \<Rightarrow> m);
          sf = (if m = ''local'' then SVCS_CSV_FILE else SVCS_CSV_URL);
          tf = (if m = ''local'' then STAT_CSV_FILE else STAT_CSV_URL);
          df = (if m = ''local'' then DIST_CSV_FILE else DIST_CSV_URL);
          a = \<lparr>mode = m, con = db, executed = [],
               services_file = sf, stations_file = tf, distances_file = df,
               files = [''services'' \<mapsto> sf, ''stations'' \<mapsto> tf, ''distances'' \<mapsto> df],
               subqueries =
                 [SVCS_BY_MONTH_TBL_NAME \<mapsto> svcs_by_month_subqry sf,
                  DIST_LNG_TBL_NAME \<mapsto> dist_lng_subqry,
                  SVCS_TBL_NAME \<mapsto> svcs_subqry sf,
                  STAT_TBL_NAME \<mapsto> stat_subqry tf,
                  DIST_TBL_NAME \<mapsto> dist_subqry df]\<rparr>
      in if m = ''local'' then load_local_data eng a else (None, a))"

definition add_cte :: "'db Analyzer \<Rightarrow> string \<Rightarrow> string \<Rightarrow> error + string" where
  "add_cte a qry tbl =
     (case subqueries a tbl of
        None \<Rightarrow> Inl (Exception (''No subquery defined for '' @ tbl))
      | Some subqry \<Rightarrow>
          if subqry = [] then Inl (Exception (''No subquery defined for '' @ tbl))
          else Inr (cte_text tbl subqry qry))"

text \<open>
  \<open>.with_rows(result).build()\<close> at the end of each report: an exception of
  \<open>with_rows\<close> leaves the chain, otherwise the table of \<open>build\<close> is the value.
\<close>

definition rows_then_build ::
  "('v \<Rightarrow> string) \<Rightarrow> 'v TableMaker \<Rightarrow> 'v list list \<Rightarrow> error + Table" where
  "rows_then_build str tm result =
     (case with_rows tm result of
        (Some e, tm') \<Rightarrow> Inl e
      | (None, tm') \<Rightarrow> Inr (fst (build str tm')))"

text \<open>
  The five reports. Each returns the table or the exception raised, and the Analyzer
  afterwards.
\<close>

definition get_busiest_by_month ::
  "('db, 'v) engine \<Rightarrow> ('v \<Rightarrow> string) \<Rightarrow> 'db Analyzer \<Rightarrow> int \<Rightarrow>
     (error + Table) \<times> 'db Analyzer" where
  "get_busiest_by_month eng str a month_cutoff =
     (case (if is_remote a then add_cte a busiest_by_month_qry SVCS_BY_MONTH_TBL_NAME
            else Inr busiest_by_month_qry) of
        Inl e \<Rightarrow> (Inl e, a)
      | Inr qry \<Rightarrow>
          (case execute eng a qry [month_cutoff] of
             (Inl e, a') \<Rightarrow> (Inl e, a')
           | (Inr result, a') \<Rightarrow>
               if result = [] then (Inl ErrNoResults, a')
               else (rows_then_build str
                       (with_column (with_column (with_column
                          (TableMaker_init ''Busiest Station by Month'')
                          ''month'') ''station'') ''num_services'')
                       result, a')))"

definition get_top_n_stations_in_period ::
  "('db, 'v) engine \<Rightarrow> ('v \<Rightarrow> string) \<Rightarrow> 'db Analyzer \<Rightarrow> int \<Rightarrow> int \<Rightarrow> int \<Rightarrow>
     (error + Table) \<times> 'db Analyzer" where
  "get_top_n_stations_in_period eng str a n start end' =
     (case (if is_remote a then add_cte a top_n_stations_qry SVCS_BY_MONTH_TBL_NAME
            else Inr top_n_stations_qry) of
        Inl e \<Rightarrow> (Inl e, a)
      | Inr qry \<Rightarrow>
          (case execute eng a qry [start, end', n] of
             (Inl e, a') \<Rightarrow> (Inl e, a')
           | (Inr result, a') \<Rightarrow>
               if result = [] then (Inl ErrNoResults, a')
               else (rows_then_build str
                       (with_column (with_column (with_column
                          (TableMaker_init (''Top '' @ str_int n @ '' Stations in Months '' @
                                            str_int start @ ''-'' @ str_int end'))
                          ''month'') ''month_name'') ''top_stations'')
                       result, a')))"

definition get_stations ::
  "('db, 'v) engine \<Rightarrow> ('v \<Rightarrow> string) \<Rightarrow> 'db Analyzer \<Rightarrow> int \<Rightarrow>
     (error + Table) \<times> 'db Analyzer" where
  "get_stations eng str a limit =
     (case (if is_remote a then add_cte a stations_qry STAT_TBL_NAME
            else Inr stations_qry) of
        Inl e \<Rightarrow> (Inl e, a)
      | Inr qry \<Rightarrow>
          (case execute eng a qry [limit] of
             (Inl e, a') \<Rightarrow> (Inl e, a')
           | (Inr result, a') \<Rightarrow>
               if result = [] then (Inl ErrNoResults, a')
               else (rows_then_build str
                       (with_column (with_column (with_column (with_column (with_column
                        (with_column
                          (TableMaker_init ''Stations'')
                          ''id'') ''name_short'') ''name_long'') ''country'') ''latitude'')
                          ''longitude'')
                       result, a')))"

definition get_distances ::
  "('db, 'v) engine \<Rightarrow> ('v \<Rightarrow> string) \<Rightarrow> 'db Analyzer \<Rightarrow> int \<Rightarrow>
     (error + Table) \<times> 'db Analyzer" where
  "get_distances eng str a limit =
     (case (if is_remote a then add_cte a distances_qry DIST_LNG_TBL_NAME
            else Inr distances_qry) of
        Inl e \<Rightarrow> (Inl e, a)
      | Inr qry \<Rightarrow>
          (case execute eng a qry [limit] of
             (Inl e, a') \<Rightarrow> (Inl e, a')
           | (Inr result, a') \<Rightarrow>
               if result = [] then (Inl ErrNoResults, a')
               else (rows_then_build str
                       (with_column (with_column (with_column
                          (TableMaker_init ''Station Pair Distances'')
                          ''station'') ''other_station'') ''distance'')
                       result, a')))"

text \<open>\<open>get_station_pairs\<close> has no \<open>is_remote\<close> step: its text goes to the engine as it is.\<close>

definition get_station_pairs ::
  "('db, 'v) engine \<Rightarrow> ('v \<Rightarrow> string) \<Rightarrow> 'db Analyzer \<Rightarrow> string \<Rightarrow> int \<Rightarrow>
     (error + Table) \<times> 'db Analyzer" where
  "get_station_pairs eng str a order limit =
     (case execute eng a (station_pairs_qry order) [limit] of
        (Inl e, a') \<Rightarrow> (Inl e, a')
      | (Inr result, a') \<Rightarrow>
          if result = [] then (Inl ErrNoResults, a')
          else (rows_then_build str
                  (with_column (with_column (with_column
                     (TableMaker_init ((if order = ''DESC'' then ''Furthest'' else ''Shortest'') @
                                       '' Station Distances''))
                     ''station1'') ''station2'') ''distance'')
                  result, a'))"

section \<open>Vocabulary for statements about the reports\<close>

text \<open>
  A call of one of the five report methods with its arguments, and \<open>call\<close>, which
  makes it. What follows names, for each call, the parts of the source method the
  statements speak about: its \<open>qry\<close> before the \<open>is_remote\<close> step and the list of
  values it binds.
\<close>

datatype report_call =
    BusiestByMonth int
  | TopNStationsInPeriod int int int
  | Stations int
  | Distances int
  | StationPairs string int

definition call ::
  "('db, 'v) engine \<Rightarrow> ('v \<Rightarrow> string) \<Rightarrow> 'db Analyzer \<Rightarrow> report_call \<Rightarrow>
     (error + Table) \<times> 'db Analyzer" where
  "call eng str a r =
     (case r of
        BusiestByMonth month_cutoff \<Rightarrow> get_busiest_by_month eng str a month_cutoff
      | TopNStationsInPeriod n start end' \<Rightarrow> get_top_n_stations_in_period eng str a n start end'
      | Stations limit \<Rightarrow> get_stations eng str a limit
      | Distances limit \<Rightarrow> get_distances eng str a limit
      | StationPairs order limit \<Rightarrow> get_station_pairs eng str a order limit)"

fun base_qry :: "report_call \<Rightarrow> string" where
  "base_qry (BusiestByMonth month_cutoff) = busiest_by_month_qry"
| "base_qry (TopNStationsInPeriod n start end') = top_n_stations_qry"
| "base_qry (Stations limit) = stations_qry"
| "base_qry (Distances limit) = distances_qry"
| "base_qry (StationPairs order limit) = station_pairs_qry order"

fun bound_params :: "report_call \<Rightarrow> int list" where
  "bound_params (BusiestByMonth month_cutoff) = [month_cutoff]"
| "bound_params (TopNStationsInPeriod n start end') = [start, end', n]"
| "bound_params (Stations limit) = [limit]"
| "bound_params (Distances limit) = [limit]"
| "bound_params (StationPairs order limit) = [limit]"

text \<open>
  Two calls of the same method that differ in their data values only (month cutoff, n,
  start, end, limit); the sort direction of \<open>get_station_pairs\<close> is not such a value.
\<close>

fun same_report :: "report_call \<Rightarrow> report_call \<Rightarrow> bool" where
  "same_report (BusiestByMonth c) (BusiestByMonth c') = True"
| "same_report (TopNStationsInPeriod n s e) (TopNStationsInPeriod n' s' e') = True"
| "same_report (Stations l) (Stations l') = True"
| "same_report (Distances l) (Distances l') = True"
| "same_report (StationPairs ord l) (StationPairs ord' l') = (ord = ord')"
| "same_report r r' = False"

text \<open>
  The table a method hands to \<open>add_cte\<close> when the session is remote
  (\<open>get_station_pairs\<close> hands none), and the text the method then passes to
  \<open>self.con.execute\<close>, or the exception of \<open>add_cte\<close>.
\<close>

fun cte_tbl :: "report_call \<Rightarrow> string option" where
  "cte_tbl (BusiestByMonth month_cutoff) = Some SVCS_BY_MONTH_TBL_NAME"
| "cte_tbl (TopNStationsInPeriod n start end') = Some SVCS_BY_MONTH_TBL_NAME"
| "cte_tbl (Stations limit) = Some STAT_TBL_NAME"
| "cte_tbl (Distances limit) = Some DIST_LNG_TBL_NAME"
| "cte_tbl (StationPairs order limit) = None"

definition sent_qry :: "'db Analyzer \<Rightarrow> report_call \<Rightarrow> error + string" where
  "sent_qry a r =
     (case cte_tbl r of
        None \<Rightarrow> Inr (base_qry r)
      | Some tbl \<Rightarrow> if is_remote a then add_cte a (base_qry r) tbl else Inr (base_qry r))"

text \<open>\<open>contains p s\<close>: the text \<open>p\<close> occurs in \<open>s\<close>.\<close>

fun contains :: "string \<Rightarrow> string \<Rightarrow> bool" where
  "contains p [] = (p = [])"
| "contains p (c # cs) = (take (length p) (c # cs) = p \<or> contains p cs)"

text \<open>An engine that returns no rows, and one that returns one row of three cells.\<close>

definition no_rows_engine :: "(unit, string) engine" where
  "no_rows_engine db qry params = (db, Inr [])"

definition one_row_engine :: "(unit, string) engine" where
  "one_row_engine db qry params = (db, Inr [[''x'', ''y'', ''z'']])"

section \<open>The top-N query, read as SQL\<close>

text \<open>
  Modelled from the spec: the analytical engine. It is not code of the repository
  (section 6 of the specification: an external SQL executor with positional parameter
  binding, CTEs, window functions such as \<open>RANK() OVER (...)\<close>, and array
  aggregation), so what it does with the statement of
  \<open>get_top_n_stations_in_period\<close> is written here from the meaning SQL gives to the
  clauses of that statement, over the rows of \<open>services_per_month\<close>: \<open>month\<close>,
  \<open>station\<close>, \<open>num_services\<close>. The theorem about the report assumes an engine that
  answers the text the report sends in this way; the text itself and the order of the
  bound values are those of the source.
\<close>

record svc_row =
  month :: int
  station :: string
  num_services :: int

text \<open>A row of the inner \<open>SELECT\<close>.\<close>

record ranked_row =
  rr_month :: int
  rr_month_name :: string
  rr_rank :: nat
  rr_station :: string
  rr_num_services :: int

text \<open>
  Modelled from the spec: the engine's window function
  \<open>rank() OVER (... ORDER BY num_services DESC)\<close> over one partition, already in
  order: \<open>i\<close> is the number of the row, \<open>prev\<close> the rank and the sort key of the
  row before it. A row with the key of the row before it is its peer and shares its
  rank; any other row gets its row number. \<open>mname\<close> stands for
  \<open>strftime(make_date(2023, month, 1), '%B')\<close>.
\<close>

fun rank_rows ::
  "(int \<Rightarrow> string) \<Rightarrow> nat \<Rightarrow> (nat \<times> int) option \<Rightarrow> svc_row list \<Rightarrow> ranked_row list" where
  "rank_rows mname i prev [] = []"
| "rank_rows mname i prev (x # xs) =
     (let rk = (case prev of
                  None \<Rightarrow> i
                | Some (rk', k') \<Rightarrow> if num_services x = k' then rk' else i)
      in \<lparr>rr_month = month x, rr_month_name = mname (month x), rr_rank = rk,
          rr_station = station x, rr_num_services = num_services x\<rparr> #
         rank_rows mname (Suc i) (Some (rk, num_services x)) xs)"

text \<open>
  Modelled from the spec: the engine's evaluation of the inner \<open>SELECT\<close>:
  \<open>WHERE month BETWEEN $1 AND $2\<close> first, then the window
  function over each partition of the rows that are left (\<open>PARTITION BY month\<close>),
  sorted by \<open>num_services\<close>, largest first.
\<close>

definition inner_select ::
  "(int \<Rightarrow> string) \<Rightarrow> svc_row list \<Rightarrow> int \<Rightarrow> int \<Rightarrow> ranked_row list" where
  "inner_select mname tbl start end' =
     (let sel = filter (\<lambda>x. start \<le> month x \<and> month x \<le> end') tbl
      in concat (map (\<lambda>m. rank_rows mname 1 None
                              (sort_key (\<lambda>x. - num_services x)
                                 (filter (\<lambda>x. month x = m) sel)))
                     (remdups (map month sel))))"

text \<open>
  Modelled from the spec: the engine's evaluation of the outer \<open>SELECT\<close>:
  \<open>WHERE rank <= $3\<close>, one group for each pair of \<open>month\<close>
  and \<open>month_name\<close> (\<open>GROUP BY ALL\<close>), \<open>array_agg(station)\<close> of the group,
  \<open>ORDER BY month\<close>. The order inside an aggregated list is the engine's choice; the
  statements below speak about membership only.
\<close>

definition top_n_stations_sql ::
  "(int \<Rightarrow> string) \<Rightarrow> svc_row list \<Rightarrow> int \<Rightarrow> int \<Rightarrow> int \<Rightarrow>
     (int \<times> string \<times> string list) list" where
  "top_n_stations_sql mname tbl start end' n =
     (let kept = filter (\<lambda>y. int (rr_rank y) \<le> n) (inner_select mname tbl start end');
          groups = remdups (map (\<lambda>y. (rr_month y, rr_month_name y)) kept)
      in map (\<lambda>(m, mn). (m, mn, map rr_station
                                   (filter (\<lambda>y. rr_month y = m \<and> rr_month_name y = mn) kept)))
             (sort_key fst groups))"

text \<open>
  Standard competition ranking, in the words of the specification: ties share a rank,
  and the rank of a station in its month is one more than the number of rows of that
  month with strictly more services.
\<close>

definition competition_rank :: "svc_row list \<Rightarrow> svc_row \<Rightarrow> nat" where
  "competition_rank tbl x =
     Suc (length (filter (\<lambda>y. month y = month x \<and> num_services x < num_services y) tbl))"

text \<open>
  A table for the scenario of the specification: in month 6 three stations tie at the
  top and a fourth follows; month 7 has a tie for the second place; month 5 is outside
  the period.
\<close>

definition scenario_tbl :: "svc_row list" where
  "scenario_tbl =
     [\<lparr>month = 6, station = ''A'', num_services = 10\<rparr>,
      \<lparr>month = 7, station = ''E'', num_services = 5\<rparr>,
      \<lparr>month = 6, station = ''D'', num_services = 9\<rparr>,
      \<lparr>month = 6, station = ''B'', num_services = 10\<rparr>,
      \<lparr>month = 7, station = ''F'', num_services = 4\<rparr>,
      \<lparr>month = 5, station = ''A'', num_services = 50\<rparr>,
      \<lparr>month = 7, station = ''G'', num_services = 4\<rparr>,
      \<lparr>month = 7, station = ''H'', num_services = 3\<rparr>,
      \<lparr>month = 6, station = ''C'', num_services = 10\<rparr>]"

definition scenario_month_name :: "int \<Rightarrow> string" where
  "scenario_month_name m =
     (if m = 6 then ''June'' else if m = 7 then ''July'' else ''August'')"

text \<open>
  Modelled from the spec: the values in a row the engine returns for this statement (an
  integer, a text, the list of \<open>array_agg\<close>), and \<open>str\<close> of each.
\<close>

datatype cell = IntCell int | StrCell string | ListCell "string list"

fun join_comma :: "string list \<Rightarrow> string" where
  "join_comma [] = []"
| "join_comma [x] = x"
| "join_comma (x # y # ys) = x @ '', '' @ join_comma (y # ys)"

fun cell_str :: "cell \<Rightarrow> string" where
  "cell_str (IntCell i) = str_int i"
| "cell_str (StrCell s) = s"
| "cell_str (ListCell ss) = ''['' @ join_comma (map py_repr ss) @ '']''"

text \<open>
  The clauses of a statement on which the reading above rests: the selected columns, the
  window function with its partition and its descending order, the table read, the
  period with the placeholders \<open>$1\<close> and \<open>$2\<close>, the rank bound with \<open>$3\<close>, the
  grouping and the order of the result.
\<close>

definition reads_as_top_n :: "string \<Rightarrow> bool" where
  "reads_as_top_n q =
     (contains ''SELECT month, month_name, array_agg(station) AS top_stations'' q \<and>
      contains (''rank() OVER'' @ nl @
                ''                    (PARTITION BY month ORDER BY num_services DESC) AS rank,'') q \<and>
      contains (''FROM '' @ SVCS_BY_MONTH_TBL_NAME @ nl) q \<and>
      contains ''WHERE month BETWEEN $1 AND $2'' q \<and>
      contains ''WHERE rank <= $3'' q \<and>
      contains ''GROUP BY ALL'' q \<and>
      contains ''ORDER BY month;'' q)"

text \<open>
  Modelled from the spec: the rows of the statement with the values \<open>$1\<close>, \<open>$2\<close>,
  \<open>$3\<close> bound, in that order. \<open>None\<close> where this reading says nothing: another
  number of values, a value outside the 64-bit integers, a month outside 1 to 12 (for
  which \<open>make_date\<close> has no date).
\<close>

definition in_int64 :: "int \<Rightarrow> bool" where
  "in_int64 v = (- (2 ^ 63) \<le> v \<and> v < 2 ^ 63)"

definition sql_top_n ::
  "(int \<Rightarrow> string) \<Rightarrow> svc_row list \<Rightarrow> int list \<Rightarrow> cell list list option" where
  "sql_top_n mname tbl params =
     (case params of
        [p1, p2, p3] \<Rightarrow>
          if list_all in_int64 params \<and> list_all (\<lambda>x. 1 \<le> month x \<and> month x \<le> 12) tbl
          then Some (map (\<lambda>(m, mn, ss). [IntCell m, StrCell mn, ListCell ss])
                         (top_n_stations_sql mname tbl p1 p2 p3))
          else None
      | _ \<Rightarrow> None)"

text \<open>An engine that answers such a statement over the scenario table, and no other.\<close>

definition scenario_engine :: "(unit, cell) engine" where
  "scenario_engine db qry params =
     (db, if reads_as_top_n qry
          then (case sql_top_n scenario_month_name scenario_tbl params of
                  Some result \<Rightarrow> Inr result
                | None \<Rightarrow> Inl ''Conversion Error'')
          else Inl ''Parser Error'')"

section \<open>The table builder\<close>

lemma cols_with_rows: "cols (snd (with_rows tm rs)) = cols tm"
  by (induction rs arbitrary: tm) auto

lemma with_rows_ok:
  "list_all (\<lambda>r. length r = length (cols tm)) rs \<Longrightarrow>
     with_rows tm rs = (None, tm\<lparr>rows := rows tm @ rs\<rparr>)"
  by (induction rs arbitrary: tm) auto

lemma with_rows_bad:
  "\<not> list_all (\<lambda>r. length r = length (cols tm)) rs \<Longrightarrow>
     with_rows tm rs =
       (Some (Exception (''Mismatched column count: got '' @
                str_nat (length (hd (dropWhile (\<lambda>r. length r = length (cols tm)) rs))) @
                '', expected '' @ str_nat (length (cols tm)))),
        tm\<lparr>rows := rows tm @ takeWhile (\<lambda>r. length r = length (cols tm)) rs\<rparr>)"
  by (induction rs arbitrary: tm) auto

lemma with_rows_fst:
  "fst (with_rows tm rs) =
     (if list_all (\<lambda>r. length r = length (cols tm)) rs then None
      else Some (Exception (''Mismatched column count: got '' @
                str_nat (length (hd (dropWhile (\<lambda>r. length r = length (cols tm)) rs))) @
                '', expected '' @ str_nat (length (cols tm)))))"
  by (simp add: with_rows_ok with_rows_bad)

lemma with_rows_fst_cols:
  assumes "cols tm' = cols tm"
  shows "fst (with_rows tm' rs) = fst (with_rows tm rs)"
  unfolding with_rows_fst assms ..

lemma foldl_add_column: "foldl add_column t ns = t\<lparr>columns := columns t @ ns\<rparr>"
  by (induction ns arbitrary: t) (auto simp: add_column_def)

lemma foldl_add_row:
  "foldl (\<lambda>t row. add_row t (f row)) t rs = t\<lparr>table_rows := table_rows t @ map f rs\<rparr>"
  by (induction rs arbitrary: t) (auto simp: add_row_def)

lemma build_eq:
  "build str tm =
     ((table tm)\<lparr>columns := columns (table tm) @ cols tm,
                 table_rows := table_rows (table tm) @ map (map str) (rows tm)\<rparr>,
      tm\<lparr>table := (table tm)\<lparr>columns := columns (table tm) @ cols tm,
                 table_rows := table_rows (table tm) @ map (map str) (rows tm)\<rparr>,
         rows := map (\<lambda>row. []) (rows tm)\<rparr>)"
  by (simp add: build_def Let_def foldl_add_column foldl_add_row)

lemma foldl_with_column: "foldl with_column tm ns = tm\<lparr>cols := cols tm @ ns\<rparr>"
  by (induction ns arbitrary: tm) (auto simp: with_column_def)

text \<open>
  Claim C2, as the code has it. When some row of the call has a length other than the
  number of declared columns, \<open>with_rows\<close> raises the exception whose message carries
  the length of the first such row and the number of declared columns. The rows of the
  call that come before that row have been appended to the builder by then and stay
  there; that row and the rows after it are not appended.
\<close>

theorem with_rows_mismatch_keeps_earlier_rows:
  assumes "\<exists>r\<in>set rs. length r \<noteq> length (cols tm)"
  shows "with_rows tm rs =
           (Some (Exception (''Mismatched column count: got '' @
                    str_nat (length (hd (dropWhile (\<lambda>r. length r = length (cols tm)) rs))) @
                    '', expected '' @ str_nat (length (cols tm)))),
            tm\<lparr>rows := rows tm @ takeWhile (\<lambda>r. length r = length (cols tm)) rs\<rparr>)"
proof -
  from assms have "\<not> list_all (\<lambda>r. length r = length (cols tm)) rs"
    by (simp add: list_all_iff)
  then show ?thesis by (rule with_rows_bad)
qed

text \<open>Two columns, a good row, a row of three cells, another good row.\<close>

theorem with_rows_mismatch_keeps_earlier_rows_witness:
  "with_rows (with_column (with_column (TableMaker_init ''t'') ''a'') ''b'')
             [[1, 2], [1, 2, 3::int], [4, 5]] =
     (Some (Exception ''Mismatched column count: got 3, expected 2''),
      \<lparr>table = Table_init ''t'', cols = [''a'', ''b''], rows = [[1, 2]]\<rparr>)"
proof -
  let ?tm = "with_column (with_column (TableMaker_init ''t'') ''a'') ''b'' :: int TableMaker"
  have h: "\<exists>r\<in>set [[1, 2], [1, 2, 3::int], [4, 5]]. length r \<noteq> length (cols ?tm)"
    by (simp add: with_column_def TableMaker_init_def)
  show ?thesis
    using with_rows_mismatch_keeps_earlier_rows [OF h]
    by (simp add: with_column_def TableMaker_init_def str_nat.simps)
qed

text \<open>
  The builder is not left as it was: it had no rows before the failing call and holds
  the first row of the call after it.
\<close>

theorem with_rows_state_unchanged_counterexample:
  "fst (with_rows (with_column (with_column (TableMaker_init ''t'') ''a'') ''b'')
                  [[1, 2], [1, 2, 3::int]]) =
     Some (Exception ''Mismatched column count: got 3, expected 2'') \<and>
   rows (with_column (with_column (TableMaker_init ''t'') ''a'') ''b'' :: int TableMaker) = [] \<and>
   rows (snd (with_rows (with_column (with_column (TableMaker_init ''t'') ''a'') ''b'')
                        [[1, 2], [1, 2, 3::int]])) = [[1, 2]]"
  by (simp add: with_column_def TableMaker_init_def str_nat.simps)

text \<open>
  Claim C4, as the code has it. On a fresh builder whose columns are all declared before
  the rows are supplied, a normal return of \<open>with_rows\<close> is followed by a \<open>build\<close>
  whose table has the declared columns, the rows converted cell by cell, and every row as
  long as the column list; and a row of another length makes \<open>with_rows\<close> raise, so that
  \<open>build\<close> is never reached.
\<close>

theorem build_rows_match_declared_columns:
  assumes "with_rows (foldl with_column (TableMaker_init t) names) rs = (r, tm)"
  shows "(r = None \<longrightarrow>
            fst (build str tm) = \<lparr>title = t, columns = names, table_rows = map (map str) rs\<rparr> \<and>
            (\<forall>row\<in>set (table_rows (fst (build str tm))).
               length row = length (columns (fst (build str tm))))) \<and>
         ((\<exists>row\<in>set rs. length row \<noteq> length names) \<longrightarrow> (\<exists>e. r = Some e))"
proof -
  let ?tm0 = "foldl with_column (TableMaker_init t) names :: 'a TableMaker"
  have c0: "cols ?tm0 = names" and r0: "rows ?tm0 = []" and t0: "table ?tm0 = Table_init t"
    by (simp_all add: foldl_with_column TableMaker_init_def)
  show ?thesis
  proof (cases "list_all (\<lambda>row. length row = length names) rs")
    case True
    then have "with_rows ?tm0 rs = (None, ?tm0\<lparr>rows := rows ?tm0 @ rs\<rparr>)"
      using with_rows_ok [of ?tm0 rs] by (simp add: c0)
    with assms have r: "r = None" and tm: "tm = ?tm0\<lparr>rows := rs\<rparr>"
      by (simp_all add: r0)
    have "fst (build str tm) = \<lparr>title = t, columns = names, table_rows = map (map str) rs\<rparr>"
      by (simp add: build_eq tm c0 t0 Table_init_def)
    moreover have "\<forall>row\<in>set rs. length row = length names"
      using True by (simp add: list_all_iff)
    ultimately show ?thesis using r by simp
  next
    case False
    then have "fst (with_rows ?tm0 rs) \<noteq> None"
      using with_rows_bad [of ?tm0 rs] by (simp add: c0)
    with assms have "\<exists>e. r = Some e" by auto
    then show ?thesis by auto
  qed
qed

text \<open>Three columns and two rows of three cells; two columns and a row of three.\<close>

theorem build_rows_match_declared_columns_witness:
  "fst (build (\<lambda>x. x)
         (snd (with_rows (foldl with_column (TableMaker_init ''t'') [''id'', ''name'', ''code''])
                         [[''1'', ''A'', ''X''], [''2'', ''B'', ''Y'']]))) =
     \<lparr>title = ''t'', columns = [''id'', ''name'', ''code''],
      table_rows = [[''1'', ''A'', ''X''], [''2'', ''B'', ''Y'']]\<rparr> \<and>
   (\<exists>e. fst (with_rows (foldl with_column (TableMaker_init ''t'') [''a'', ''b''])
                        [[''1'', ''2'', ''3'']]) = Some e)"
proof -
  let ?tm0 = "foldl with_column (TableMaker_init ''t'') [''id'', ''name'', ''code'']"
  let ?rs = "[[''1'', ''A'', ''X''], [''2'', ''B'', ''Y'']]"
  have ok: "fst (with_rows ?tm0 ?rs) = None"
    by (simp add: with_column_def TableMaker_init_def)
  have p: "with_rows ?tm0 ?rs = (fst (with_rows ?tm0 ?rs), snd (with_rows ?tm0 ?rs))"
    by simp
  have a: "fst (build (\<lambda>x. x) (snd (with_rows ?tm0 ?rs))) =
           \<lparr>title = ''t'', columns = [''id'', ''name'', ''code''], table_rows = map (map (\<lambda>x. x)) ?rs\<rparr>"
    using build_rows_match_declared_columns [OF p, of "\<lambda>x. x"] ok by blast
  let ?tm1 = "foldl with_column (TableMaker_init ''t'') [''a'', ''b'']"
  let ?bad = "[[''1'', ''2'', ''3'']]"
  have q: "with_rows ?tm1 ?bad = (fst (with_rows ?tm1 ?bad), snd (with_rows ?tm1 ?bad))"
    by simp
  have h: "\<exists>row\<in>set ?bad. length row \<noteq> length [''a'', ''b'']" by simp
  have b: "\<exists>e. fst (with_rows ?tm1 ?bad) = Some e"
    using build_rows_match_declared_columns [OF q, of "\<lambda>x. x"] h by blast
  from a b show ?thesis by simp
qed

text \<open>
  A column declared after the rows: \<open>with_rows\<close> accepted the row against one column,
  \<open>build\<close> checks nothing and returns a table of two columns with a row of one cell.
\<close>

theorem build_column_after_rows_counterexample:
  "fst (with_rows (with_column (TableMaker_init ''t'') ''a'') [[''1'']]) = None \<and>
   fst (build (\<lambda>x. x)
         (with_column (snd (with_rows (with_column (TableMaker_init ''t'') ''a'') [[''1'']])) ''b'')) =
     \<lparr>title = ''t'', columns = [''a'', ''b''], table_rows = [[''1'']]\<rparr>"
  by (simp add: with_column_def TableMaker_init_def Table_init_def build_eq)

text \<open>
  Claim C7, as the code has it. \<open>build\<close> leaves the builder usable: the declared columns
  stay, \<open>with_column\<close> still appends, \<open>with_rows\<close> raises or returns exactly as it
  would have before, and a second \<open>build\<close> returns the table again with every declared
  column added once more and, for every stored row, one more row without cells.
\<close>

theorem build_again_after_build:
  "snd (build str tm) = tm\<lparr>table := fst (build str tm), rows := map (\<lambda>row. []) (rows tm)\<rparr> \<and>
   fst (build str (snd (build str tm))) =
     (fst (build str tm))\<lparr>columns := columns (fst (build str tm)) @ cols tm,
                          table_rows := table_rows (fst (build str tm)) @
                                        map (\<lambda>row. []) (rows tm)\<rparr> \<and>
   cols (with_column (snd (build str tm)) name) = cols tm @ [name] \<and>
   fst (with_rows (snd (build str tm)) rs) = fst (with_rows tm rs)"
proof -
  have "fst (with_rows (snd (build str tm)) rs) = fst (with_rows tm rs)"
    by (rule with_rows_fst_cols) (simp add: build_eq)
  then show ?thesis
    by (simp add: build_eq with_column_def comp_def)
qed

text \<open>One column, one row, built twice.\<close>

theorem build_again_after_build_witness:
  "fst (build (\<lambda>x. x) (snd (build (\<lambda>x. x)
      (snd (with_rows (with_column (TableMaker_init ''t'') ''a'') [[''x'']]))))) =
   \<lparr>title = ''t'', columns = [''a'', ''a''], table_rows = [[''x''], []]\<rparr>"
  using build_again_after_build [of "\<lambda>x. x"
      "snd (with_rows (with_column (TableMaker_init ''t'') ''a'') [[''x'']])" "''b''" "[]"]
  by (simp add: with_column_def TableMaker_init_def Table_init_def build_eq)

text \<open>
  The second \<open>build\<close> does not fail and returns a table that differs from the first:
  the column is there twice and an empty row has been added.
\<close>

theorem build_single_use_counterexample:
  "fst (build (\<lambda>x. x)
      (snd (with_rows (with_column (TableMaker_init ''t'') ''a'') [[''x'']]))) =
     \<lparr>title = ''t'', columns = [''a''], table_rows = [[''x'']]\<rparr> \<and>
   fst (build (\<lambda>x. x) (snd (build (\<lambda>x. x)
      (snd (with_rows (with_column (TableMaker_init ''t'') ''a'') [[''x'']]))))) =
     \<lparr>title = ''t'', columns = [''a'', ''a''], table_rows = [[''x''], []]\<rparr>"
  by (simp add: with_column_def TableMaker_init_def Table_init_def build_eq)

section \<open>The Analyzer\<close>

text \<open>What a report call executes and what it returns, in terms of \<open>sent_qry\<close>.\<close>

lemmas report_defs =
  call_def get_busiest_by_month_def get_top_n_stations_in_period_def get_stations_def
  get_distances_def get_station_pairs_def

lemma executed_call:
  "executed (snd (call eng str a r)) =
     executed a @ (case sent_qry a r of Inl e \<Rightarrow> [] | Inr q \<Rightarrow> [(q, bound_params r)])"
  by (cases r; cases "is_remote a")
     (simp_all add: report_defs sent_qry_def execute_def split: prod.splits sum.splits)

lemma call_raises:
  "sent_qry a r = Inl e \<Longrightarrow> fst (call eng str a r) = Inl e"
  by (cases r; cases "is_remote a") (simp_all add: report_defs sent_qry_def)

lemma call_no_rows:
  "sent_qry a r = Inr q \<Longrightarrow> snd (eng (con a) q (bound_params r)) = Inr [] \<Longrightarrow>
     fst (call eng str a r) = Inl ErrNoResults"
  by (cases r; cases "is_remote a")
     (auto simp: report_defs sent_qry_def execute_def split: prod.splits)

lemma rows_then_build_rows:
  assumes "rows_then_build str tm result = Inr T" and "result \<noteq> []"
  shows "table_rows T \<noteq> []"
proof -
  from assms(1) obtain tm' where w: "with_rows tm result = (None, tm')"
      and T: "T = fst (build str tm')"
    by (auto simp: rows_then_build_def split: prod.splits option.splits)
  from w have "fst (with_rows tm result) = None" by simp
  then have "list_all (\<lambda>r. length r = length (cols tm)) result"
    by (simp add: with_rows_fst split: if_splits)
  then have "with_rows tm result = (None, tm\<lparr>rows := rows tm @ result\<rparr>)"
    by (rule with_rows_ok)
  with w have "rows tm' = rows tm @ result" by auto
  with assms(2) show ?thesis by (simp add: T build_eq)
qed

lemma call_table_rows:
  "fst (call eng str a r) = Inr T \<Longrightarrow> table_rows T \<noteq> []"
  by (cases r)
     (auto simp: report_defs execute_def split: prod.splits sum.splits if_splits
           dest: rows_then_build_rows)

lemma same_report_sent_qry: "same_report r r' \<Longrightarrow> sent_qry a r = sent_qry a r'"
  by (cases r; cases r') (auto simp: sent_qry_def)

lemma remote_init:
  "snd (Analyzer_init eng db None) =
      \<lparr>mode = ''remote'', con = db, executed = [],
       services_file = SVCS_CSV_URL, stations_file = STAT_CSV_URL,
       distances_file = DIST_CSV_URL,
       files = [''services'' \<mapsto> SVCS_CSV_URL, ''stations'' \<mapsto> STAT_CSV_URL,
                ''distances'' \<mapsto> DIST_CSV_URL],
       subqueries =
         [SVCS_BY_MONTH_TBL_NAME \<mapsto> svcs_by_month_subqry SVCS_CSV_URL,
          DIST_LNG_TBL_NAME \<mapsto> dist_lng_subqry,
          SVCS_TBL_NAME \<mapsto> svcs_subqry SVCS_CSV_URL,
          STAT_TBL_NAME \<mapsto> stat_subqry STAT_CSV_URL,
          DIST_TBL_NAME \<mapsto> dist_subqry DIST_CSV_URL]\<rparr>"
  by (simp add: Analyzer_init_def Let_def)

lemma tbl_names_distinct:
  "distinct [SVCS_BY_MONTH_TBL_NAME, DIST_LNG_TBL_NAME, SVCS_TBL_NAME, STAT_TBL_NAME, DIST_TBL_NAME]"
  by (simp add: config_defs)

lemma dist_lng_subqry_nonempty: "dist_lng_subqry \<noteq> []"
  by (simp add: dist_lng_subqry_def)

lemma mode_execute: "mode (snd (execute eng a q ps)) = mode a"
  by (simp add: execute_def split: prod.splits)

lemma mode_create_tbl: "mode (snd (create_tbl eng a tbl)) = mode a"
  by (simp add: create_tbl_def execute_def split: option.splits prod.splits sum.splits)

lemma mode_and_then:
  assumes "\<And>s. mode (snd (f s)) = mode s"
  shows "mode (snd (and_then r f)) = mode (snd r)"
  using assms by (cases r) (auto simp: and_then_def split: option.splits)

lemma mode_load_local_data: "mode (snd (load_local_data eng a)) = mode a"
  by (simp add: load_local_data_def mode_and_then mode_create_tbl)

lemma local_init_mode: "mode (snd (Analyzer_init eng db (Some ''local''))) = ''local''"
  by (simp add: Analyzer_init_def Let_def mode_load_local_data)

text \<open>
  Claim C1 asks that in remote mode every report prefixes its text with a
  \<open>WITH name AS (defining query)\<close> clause for every logical table it reads. The code
  at the call \<open>Analyzer().get_station_pairs("DESC", 3)\<close>: the session is remote, the
  only statement executed is the method's own text, which reads \<open>distances_long\<close> and
  \<open>stations\<close> and holds no \<open>WITH\<close> at all. And at \<open>Analyzer().get_distances(5)\<close>:
  the text is prefixed with the clause for \<open>distances_long\<close>, whose defining query
  reads \<open>distances\<close>, for which the text holds no clause.
\<close>

theorem station_pairs_remote_sends_no_cte:
  "is_remote (snd (Analyzer_init eng db None)) \<and>
   executed (snd (call eng str (snd (Analyzer_init eng db None)) (StationPairs ''DESC'' 3))) =
     [(station_pairs_qry ''DESC'', [3])] \<and>
   contains (''FROM '' @ DIST_LNG_TBL_NAME) (station_pairs_qry ''DESC'') \<and>
   contains (''JOIN'' @ nl @ ''            '' @ STAT_TBL_NAME) (station_pairs_qry ''DESC'') \<and>
   \<not> contains ''WITH'' (station_pairs_qry ''DESC'') \<and>
   executed (snd (call eng str (snd (Analyzer_init eng db None)) (Distances 5))) =
     [(cte_text DIST_LNG_TBL_NAME dist_lng_subqry distances_qry, [5])] \<and>
   contains (''UNPIVOT '' @ DIST_TBL_NAME @ nl) dist_lng_subqry \<and>
   \<not> contains (''WITH '' @ DIST_TBL_NAME @ '' AS'')
        (cte_text DIST_LNG_TBL_NAME dist_lng_subqry distances_qry)"
proof -
  have 1: "is_remote (snd (Analyzer_init eng db None))"
    by (simp add: remote_init is_remote_def)
  have 2: "executed (snd (call eng str (snd (Analyzer_init eng db None)) (StationPairs ''DESC'' 3))) =
     [(station_pairs_qry ''DESC'', [3])]"
    by (simp add: executed_call sent_qry_def remote_init)
  have 3: "contains (''FROM '' @ DIST_LNG_TBL_NAME) (station_pairs_qry ''DESC'')"
    by (simp add: station_pairs_qry_def config_defs)
  have 4: "contains (''JOIN'' @ nl @ ''            '' @ STAT_TBL_NAME) (station_pairs_qry ''DESC'')"
    by (simp add: station_pairs_qry_def config_defs)
  have 5: "\<not> contains ''WITH'' (station_pairs_qry ''DESC'')"
    by (simp add: station_pairs_qry_def config_defs)
  have 6: "executed (snd (call eng str (snd (Analyzer_init eng db None)) (Distances 5))) =
     [(cte_text DIST_LNG_TBL_NAME dist_lng_subqry distances_qry, [5])]"
    using tbl_names_distinct dist_lng_subqry_nonempty
    by (simp add: executed_call sent_qry_def remote_init is_remote_def add_cte_def)
  have 7: "contains (''UNPIVOT '' @ DIST_TBL_NAME @ nl) dist_lng_subqry"
    by (simp add: dist_lng_subqry_def config_defs)
  have 8: "\<not> contains (''WITH '' @ DIST_TBL_NAME @ '' AS'')
        (cte_text DIST_LNG_TBL_NAME dist_lng_subqry distances_qry)"
    by (simp add: cte_text_def dist_lng_subqry_def distances_qry_def config_defs)
  from 1 2 3 4 5 6 7 8 show ?thesis by blast
qed

text \<open>
  Claim C3. For every report call, on any session and engine: when the engine returns
  no rows for the statement the call executes, the call raises \<open>ErrNoResults\<close>; and
  a table that a call returns has at least one row.
\<close>

theorem empty_result_raises_ErrNoResults:
  "(executed (snd (call eng str a r)) = executed a @ [(q, ps)] \<and>
      snd (eng (con a) q ps) = Inr [] \<longrightarrow>
    fst (call eng str a r) = Inl ErrNoResults) \<and>
   (fst (call eng str a r) = Inr T \<longrightarrow> table_rows T \<noteq> [])"
proof (intro conjI impI)
  assume h: "executed (snd (call eng str a r)) = executed a @ [(q, ps)] \<and>
      snd (eng (con a) q ps) = Inr []"
  then have "sent_qry a r = Inr q" and "ps = bound_params r"
    by (auto simp: executed_call split: sum.splits)
  with h show "fst (call eng str a r) = Inl ErrNoResults"
    by (simp add: call_no_rows)
next
  assume "fst (call eng str a r) = Inr T"
  then show "table_rows T \<noteq> []" by (rule call_table_rows)
qed

text \<open>
  \<open>get_station_pairs\<close> on an engine without rows, \<open>get_distances\<close> on an engine with
  one row.
\<close>

theorem empty_result_raises_ErrNoResults_witness:
  "fst (call no_rows_engine (\<lambda>x. x) (snd (Analyzer_init no_rows_engine () None))
          (StationPairs ''DESC'' 3)) = Inl ErrNoResults \<and>
   (\<exists>T. fst (call one_row_engine (\<lambda>x. x) (snd (Analyzer_init one_row_engine () None))
              (Distances 5)) = Inr T \<and> table_rows T \<noteq> [])"
proof -
  let ?a = "snd (Analyzer_init no_rows_engine () None)"
  have h: "executed (snd (call no_rows_engine (\<lambda>x. x) ?a (StationPairs ''DESC'' 3))) =
             executed ?a @ [(station_pairs_qry ''DESC'', [3])] \<and>
           snd (no_rows_engine (con ?a) (station_pairs_qry ''DESC'') [3]) = Inr []"
    by (simp add: call_def get_station_pairs_def execute_def no_rows_engine_def)
  have 1: "fst (call no_rows_engine (\<lambda>x. x) ?a (StationPairs ''DESC'' 3)) = Inl ErrNoResults"
    using empty_result_raises_ErrNoResults
      [of no_rows_engine "\<lambda>x. x" ?a "StationPairs ''DESC'' 3" "station_pairs_qry ''DESC''" "[3]"] h
    by blast
  let ?b = "snd (Analyzer_init one_row_engine () None)"
  let ?T = "\<lparr>title = ''Station Pair Distances'',
             columns = [''station'', ''other_station'', ''distance''],
             table_rows = [[''x'', ''y'', ''z'']]\<rparr>"
  have c: "fst (call one_row_engine (\<lambda>x. x) ?b (Distances 5)) = Inr ?T"
    using tbl_names_distinct dist_lng_subqry_nonempty
    by (simp add: call_def get_distances_def remote_init is_remote_def add_cte_def
          execute_def one_row_engine_def rows_then_build_def with_column_def
          TableMaker_init_def Table_init_def build_eq)
  have 2: "table_rows ?T \<noteq> []"
    using empty_result_raises_ErrNoResults
      [of one_row_engine "\<lambda>x. x" ?b "Distances 5" _ _ ?T] c
    by blast
  from 1 c 2 show ?thesis by blast
qed

text \<open>
  Claim C5. In a local session every report call executes exactly one statement: the
  method's own \<open>qry\<close>, unchanged, with the call's values bound.
\<close>

theorem local_mode_sends_base_query:
  assumes "mode a = ''local''"
  shows "executed (snd (call eng str a r)) = executed a @ [(base_qry r, bound_params r)]"
proof -
  from assms have "\<not> is_remote a" by (simp add: is_remote_def)
  then have "sent_qry a r = Inr (base_qry r)"
    by (simp add: sent_qry_def split: option.splits)
  then show ?thesis by (simp add: executed_call)
qed

text \<open>A session built with \<open>mode="local"\<close>, then \<open>get_distances(5)\<close>.\<close>

theorem local_mode_sends_base_query_witness:
  "executed (snd (call one_row_engine (\<lambda>x. x)
                    (snd (Analyzer_init one_row_engine () (Some ''local''))) (Distances 5))) =
   executed (snd (Analyzer_init one_row_engine () (Some ''local''))) @ [(distances_qry, [5])]"
  using local_mode_sends_base_query
    [of "snd (Analyzer_init one_row_engine () (Some ''local''))" one_row_engine "\<lambda>x. x"
        "Distances 5", OF local_init_mode]
  by simp

text \<open>
  Claim C6. For a table name without a registered defining query, \<open>add_cte\<close> and
  \<open>create_tbl\<close> both raise \<open>Exception\<close> with the message naming the table,
  \<open>create_tbl\<close> before anything is executed; and that exception is not
  \<open>ErrNoResults\<close>.
\<close>

theorem missing_subquery_raises_Exception:
  assumes "subqueries a tbl = None"
  shows "add_cte a qry tbl = Inl (Exception (''No subquery defined for '' @ tbl)) \<and>
         create_tbl eng a tbl = (Some (Exception (''No subquery defined for '' @ tbl)), a) \<and>
         Exception (''No subquery defined for '' @ tbl) \<noteq> ErrNoResults"
  using assms by (simp add: add_cte_def create_tbl_def)

text \<open>The table name \<open>trains\<close> on a fresh remote session.\<close>

theorem missing_subquery_raises_Exception_witness:
  "add_cte (snd (Analyzer_init no_rows_engine () None)) stations_qry ''trains'' =
     Inl (Exception ''No subquery defined for trains'') \<and>
   create_tbl no_rows_engine (snd (Analyzer_init no_rows_engine () None)) ''trains'' =
     (Some (Exception ''No subquery defined for trains''),
      snd (Analyzer_init no_rows_engine () None))"
proof -
  have h: "subqueries (snd (Analyzer_init no_rows_engine () None)) ''trains'' = None"
    by (simp add: remote_init config_defs)
  show ?thesis
    using missing_subquery_raises_Exception [OF h, of stations_qry no_rows_engine]
    by simp
qed

text \<open>
  Claim C9, as the code has it. Two calls of the same report method on the same session
  that differ only in month cutoff, n, start, end or limit (and, for
  \<open>get_station_pairs\<close>, have the same sort direction) hand the same texts to the
  engine, whatever the engine returns; each call binds its own values to them.
\<close>

theorem data_values_are_bound_not_interpolated:
  assumes "same_report r r'"
  shows "\<exists>qs. executed (snd (call eng str a r)) = executed a @ map (\<lambda>q. (q, bound_params r)) qs \<and>
              executed (snd (call eng' str' a r')) = executed a @ map (\<lambda>q. (q, bound_params r')) qs"
proof -
  let ?qs = "case sent_qry a r of Inl e \<Rightarrow> [] | Inr q \<Rightarrow> [q]"
  have "executed (snd (call eng str a r)) = executed a @ map (\<lambda>q. (q, bound_params r)) ?qs"
    by (simp add: executed_call split: sum.splits)
  moreover have "executed (snd (call eng' str' a r')) = executed a @ map (\<lambda>q. (q, bound_params r')) ?qs"
    using same_report_sent_qry [OF assms, of a]
    by (simp add: executed_call split: sum.splits)
  ultimately show ?thesis by blast
qed

text \<open>\<open>get_top_n_stations_in_period(2, 6, 8)\<close> and \<open>(3, 1, 12)\<close> on a remote session.\<close>

theorem data_values_are_bound_not_interpolated_witness:
  "\<exists>qs. executed (snd (call no_rows_engine (\<lambda>x. x) (snd (Analyzer_init no_rows_engine () None))
                        (TopNStationsInPeriod 2 6 8))) =
           map (\<lambda>q. (q, [6, 8, 2])) qs \<and>
        executed (snd (call one_row_engine (\<lambda>x. x) (snd (Analyzer_init no_rows_engine () None))
                        (TopNStationsInPeriod 3 1 12))) =
           map (\<lambda>q. (q, [1, 12, 3])) qs"
proof -
  have h: "same_report (TopNStationsInPeriod 2 6 8) (TopNStationsInPeriod 3 1 12)"
    by simp
  show ?thesis
    using data_values_are_bound_not_interpolated
      [OF h, of no_rows_engine "\<lambda>x. x" "snd (Analyzer_init no_rows_engine () None)"
         one_row_engine "\<lambda>x. x"]
    by (simp add: remote_init)
qed

text \<open>
  The text is not fixed by the session: the \<open>order\<close> argument of
  \<open>get_station_pairs\<close> is part of it, so two calls on the same session send
  different texts.
\<close>

theorem order_is_interpolated_counterexample:
  "map fst (executed (snd (call no_rows_engine (\<lambda>x. x) (snd (Analyzer_init no_rows_engine () None))
                            (StationPairs ''ASC'' 3)))) = [station_pairs_qry ''ASC''] \<and>
   map fst (executed (snd (call no_rows_engine (\<lambda>x. x) (snd (Analyzer_init no_rows_engine () None))
                            (StationPairs ''DESC'' 3)))) = [station_pairs_qry ''DESC''] \<and>
   station_pairs_qry ''ASC'' \<noteq> station_pairs_qry ''DESC''"
  by (simp add: call_def get_station_pairs_def execute_def no_rows_engine_def remote_init
        station_pairs_qry_def)

text \<open>
  Claim C10. Without a mode argument the session is remote: nothing has been executed
  when the constructor returns, and every dataset is its URL.
\<close>

theorem default_mode_is_remote:
  "Analyzer_init eng db None =
     (None,
      \<lparr>mode = ''remote'', con = db, executed = [],
       services_file = SVCS_CSV_URL, stations_file = STAT_CSV_URL,
       distances_file = DIST_CSV_URL,
       files = [''services'' \<mapsto> SVCS_CSV_URL, ''stations'' \<mapsto> STAT_CSV_URL,
                ''distances'' \<mapsto> DIST_CSV_URL],
       subqueries =
         [SVCS_BY_MONTH_TBL_NAME \<mapsto> svcs_by_month_subqry SVCS_CSV_URL,
          DIST_LNG_TBL_NAME \<mapsto> dist_lng_subqry,
          SVCS_TBL_NAME \<mapsto> svcs_subqry SVCS_CSV_URL,
          STAT_TBL_NAME \<mapsto> stat_subqry STAT_CSV_URL,
          DIST_TBL_NAME \<mapsto> dist_subqry DIST_CSV_URL]\<rparr>) \<and>
   is_remote (snd (Analyzer_init eng db None))"
  by (simp add: Analyzer_init_def Let_def is_remote_def)

section \<open>The ranking of the top-N query\<close>

lemma sorted_desc_last:
  assumes "sorted_wrt (\<lambda>a b. num_services b \<le> num_services a) pre" and "y \<in> set pre"
  shows "num_services (last pre) \<le> num_services y"
proof -
  from assms(2) have ne: "pre \<noteq> []" by auto
  then have pre: "pre = butlast pre @ [last pre]" by simp
  from assms(1) have "\<forall>z\<in>set (butlast pre). num_services (last pre) \<le> num_services z"
    by (subst (asm) pre) (simp add: sorted_wrt_append)
  moreover from assms(2) have "y \<in> set (butlast pre) \<or> y = last pre"
    by (subst (asm) pre) auto
  ultimately show ?thesis by auto
qed

lemma rank_rows_sorted:
  assumes "sorted_wrt (\<lambda>a b. num_services b \<le> num_services a) (pre @ xs)"
    and "case prev of
           None \<Rightarrow> pre = []
         | Some (rk', k') \<Rightarrow>
             pre \<noteq> [] \<and> k' = num_services (last pre) \<and>
             rk' = Suc (length (filter (\<lambda>y. k' < num_services y) pre))"
  shows "rank_rows mname (Suc (length pre)) prev xs =
           map (\<lambda>x. \<lparr>rr_month = month x, rr_month_name = mname (month x),
                      rr_rank = Suc (length (filter (\<lambda>y. num_services x < num_services y)
                                               (pre @ xs))),
                      rr_station = station x, rr_num_services = num_services x\<rparr>) xs"
  using assms
proof (induction xs arbitrary: pre prev)
  case Nil
  then show ?case by simp
next
  case (Cons x xs)
  let ?k = "num_services x"
  let ?rk = "case prev of None \<Rightarrow> Suc (length pre)
             | Some (rk', k') \<Rightarrow> if ?k = k' then rk' else Suc (length pre)"
  from Cons.prems(1) have spre: "sorted_wrt (\<lambda>a b. num_services b \<le> num_services a) pre"
    and above: "\<forall>y\<in>set pre. ?k \<le> num_services y"
    and below: "\<forall>y\<in>set xs. num_services y \<le> ?k"
    by (auto simp: sorted_wrt_append)
  from below have here: "filter (\<lambda>y. ?k < num_services y) (pre @ x # xs) =
                         filter (\<lambda>y. ?k < num_services y) pre"
    by (auto simp: filter_empty_conv)
  have rk: "?rk = Suc (length (filter (\<lambda>y. ?k < num_services y) pre))"
  proof (cases prev)
    case None
    with Cons.prems(2) show ?thesis by simp
  next
    case (Some p)
    obtain rk' k' where p: "p = (rk', k')" by (cases p)
    from Cons.prems(2) Some p have ne: "pre \<noteq> []" and k': "k' = num_services (last pre)"
      and rk': "rk' = Suc (length (filter (\<lambda>y. k' < num_services y) pre))"
      by auto
    show ?thesis
    proof (cases "?k = k'")
      case True
      with Some p rk' show ?thesis by simp
    next
      case False
      from ne have "last pre \<in> set pre" by simp
      with above k' False have lt: "?k < k'" by fastforce
      have "\<forall>y\<in>set pre. ?k < num_services y"
      proof
        fix y assume "y \<in> set pre"
        with spre have "num_services (last pre) \<le> num_services y" by (rule sorted_desc_last)
        with lt k' show "?k < num_services y" by simp
      qed
      then have "filter (\<lambda>y. ?k < num_services y) pre = pre"
        by (simp add: filter_id_conv)
      with Some p False show ?thesis by simp
    qed
  qed
  have "rank_rows mname (Suc (length (pre @ [x]))) (Some (?rk, ?k)) xs =
          map (\<lambda>z. \<lparr>rr_month = month z, rr_month_name = mname (month z),
                     rr_rank = Suc (length (filter (\<lambda>y. num_services z < num_services y)
                                              ((pre @ [x]) @ xs))),
                     rr_station = station z, rr_num_services = num_services z\<rparr>) xs"
  proof (rule Cons.IH)
    from Cons.prems(1) show "sorted_wrt (\<lambda>a b. num_services b \<le> num_services a) ((pre @ [x]) @ xs)"
      by simp
    show "case Some (?rk, ?k) of
            None \<Rightarrow> pre @ [x] = []
          | Some (rk', k') \<Rightarrow>
              pre @ [x] \<noteq> [] \<and> k' = num_services (last (pre @ [x])) \<and>
              rk' = Suc (length (filter (\<lambda>y. k' < num_services y) (pre @ [x])))"
      using rk by simp
  qed
  then show ?case
    using rk here by (simp add: Let_def)
qed


lemma rank_rows_partition:
  "rank_rows mname 1 None (sort_key (\<lambda>x. - num_services x) part) =
     map (\<lambda>x. \<lparr>rr_month = month x, rr_month_name = mname (month x),
                rr_rank = Suc (length (filter (\<lambda>y. num_services x < num_services y) part)),
                rr_station = station x, rr_num_services = num_services x\<rparr>)
         (sort_key (\<lambda>x. - num_services x) part)"
proof -
  let ?s = "sort_key (\<lambda>x. - num_services x) part"
  have "sorted (map (\<lambda>x. - num_services x) ?s)" by (rule sorted_sort_key)
  then have srt: "sorted_wrt (\<lambda>a b. num_services b \<le> num_services a) ([] @ ?s)"
    by (simp add: sorted_wrt_map)
  have len: "\<And>P. length (filter P ?s) = length (filter P part)"
    by (simp add: filter_sort)
  have "rank_rows mname (Suc (length ([] :: svc_row list))) None ?s =
     map (\<lambda>x. \<lparr>rr_month = month x, rr_month_name = mname (month x),
                rr_rank = Suc (length (filter (\<lambda>y. num_services x < num_services y) ([] @ ?s))),
                rr_station = station x, rr_num_services = num_services x\<rparr>) ?s"
    by (rule rank_rows_sorted [OF srt]) simp
  then show ?thesis by (simp add: len)
qed

lemma UN_image_fibres: "(\<Union>m\<in>f ` S. g ` {x \<in> S. f x = m}) = g ` S"
  by blast

lemma set_inner_select:
  "set (inner_select mname tbl start end') =
     (\<lambda>x. \<lparr>rr_month = month x, rr_month_name = mname (month x),
            rr_rank = competition_rank tbl x,
            rr_station = station x, rr_num_services = num_services x\<rparr>) `
     {x \<in> set tbl. start \<le> month x \<and> month x \<le> end'}"
proof -
  let ?rows = "filter (\<lambda>x. start \<le> month x \<and> month x \<le> end') tbl"
  have cnt: "Suc (length (filter (\<lambda>y. num_services x < num_services y)
                      (filter (\<lambda>y. month y = month x) ?rows))) = competition_rank tbl x"
    if "x \<in> set ?rows" for x
  proof -
    from that have "\<And>y. month y = month x \<Longrightarrow> start \<le> month y \<and> month y \<le> end'"
      by simp
    then have "filter (\<lambda>y. num_services x < num_services y)
                 (filter (\<lambda>y. month y = month x) ?rows) =
               filter (\<lambda>y. month y = month x \<and> num_services x < num_services y) tbl"
      by (auto intro: filter_cong)
    then show ?thesis by (simp add: competition_rank_def)
  qed
  let ?g = "\<lambda>x. \<lparr>rr_month = month x, rr_month_name = mname (month x),
            rr_rank = competition_rank tbl x,
            rr_station = station x, rr_num_services = num_services x\<rparr>"
  have part: "set (rank_rows mname 1 None
                     (sort_key (\<lambda>x. - num_services x) (filter (\<lambda>x. month x = m) ?rows))) =
              ?g ` {x \<in> set ?rows. month x = m}" for m
  proof -
    have "map (\<lambda>x. \<lparr>rr_month = month x, rr_month_name = mname (month x),
                rr_rank = Suc (length (filter (\<lambda>y. num_services x < num_services y)
                                         (filter (\<lambda>x. month x = m) ?rows))),
                rr_station = station x, rr_num_services = num_services x\<rparr>)
            (sort_key (\<lambda>x. - num_services x) (filter (\<lambda>x. month x = m) ?rows)) =
          map ?g (sort_key (\<lambda>x. - num_services x) (filter (\<lambda>x. month x = m) ?rows))"
    proof (rule map_cong [OF refl])
      fix x assume "x \<in> set (sort_key (\<lambda>x. - num_services x) (filter (\<lambda>x. month x = m) ?rows))"
      then have x: "x \<in> set ?rows" and m: "m = month x" by auto
      from cnt [OF x] show "\<lparr>rr_month = month x, rr_month_name = mname (month x),
                rr_rank = Suc (length (filter (\<lambda>y. num_services x < num_services y)
                                         (filter (\<lambda>x. month x = m) ?rows))),
                rr_station = station x, rr_num_services = num_services x\<rparr> = ?g x"
        unfolding m by simp
    qed
    then have "rank_rows mname 1 None
                 (sort_key (\<lambda>x. - num_services x) (filter (\<lambda>x. month x = m) ?rows)) =
               map ?g (sort_key (\<lambda>x. - num_services x) (filter (\<lambda>x. month x = m) ?rows))"
      by (simp only: rank_rows_partition)
    then show ?thesis by (simp only: set_map set_sort set_filter)
  qed
  have "set (inner_select mname tbl start end') =
          (\<Union>m\<in>set (map month ?rows). ?g ` {x \<in> set ?rows. month x = m})"
    unfolding inner_select_def Let_def set_concat set_map set_remdups image_image part ..
  also have "\<dots> = ?g ` set ?rows"
    unfolding set_map by (rule UN_image_fibres)
  finally show ?thesis by simp
qed



lemma set_top_n:
  "set (top_n_stations_sql mname tbl start end' n) =
     (\<lambda>(m, mn). (m, mn, map rr_station
          (filter (\<lambda>y. rr_month y = m \<and> rr_month_name y = mn)
             (filter (\<lambda>y. int (rr_rank y) \<le> n) (inner_select mname tbl start end'))))) `
     (\<lambda>y. (rr_month y, rr_month_name y)) `
       set (filter (\<lambda>y. int (rr_rank y) \<le> n) (inner_select mname tbl start end'))"
  by (simp add: top_n_stations_sql_def Let_def)

lemma top_n_member:
  "(\<exists>mn ss. (m, mn, ss) \<in> set (top_n_stations_sql mname tbl start end' n) \<and> s \<in> set ss) \<longleftrightarrow>
   (\<exists>y\<in>set (inner_select mname tbl start end'). int (rr_rank y) \<le> n \<and> rr_month y = m \<and> rr_station y = s)"
  (is "?L \<longleftrightarrow> ?R")
proof
  assume ?L
  then obtain mn ss where in_res: "(m, mn, ss) \<in> set (top_n_stations_sql mname tbl start end' n)"
    and s: "s \<in> set ss" by blast
  from in_res have ss: "ss = map rr_station
          (filter (\<lambda>y. rr_month y = m \<and> rr_month_name y = mn)
             (filter (\<lambda>y. int (rr_rank y) \<le> n) (inner_select mname tbl start end')))"
    unfolding set_top_n by (elim imageE) (simp split: prod.splits)
  from s show ?R unfolding ss by auto
next
  assume ?R
  then obtain y where y: "y \<in> set (inner_select mname tbl start end')" "int (rr_rank y) \<le> n"
    "rr_month y = m" "rr_station y = s" by blast
  let ?kept = "filter (\<lambda>y. int (rr_rank y) \<le> n) (inner_select mname tbl start end')"
  let ?ss = "map rr_station (filter (\<lambda>z. rr_month z = m \<and> rr_month_name z = rr_month_name y) ?kept)"
  from y have yk: "y \<in> set ?kept" by simp
  have "(\<lambda>(m, mn). (m, mn, map rr_station
          (filter (\<lambda>y. rr_month y = m \<and> rr_month_name y = mn) ?kept)))
        ((\<lambda>y. (rr_month y, rr_month_name y)) y) \<in> set (top_n_stations_sql mname tbl start end' n)"
    unfolding set_top_n using yk by (intro imageI)
  then have "(m, rr_month_name y, ?ss) \<in> set (top_n_stations_sql mname tbl start end' n)"
    using y(3) by simp
  moreover from yk y have "s \<in> set ?ss" by force
  ultimately show ?L by blast
qed


lemma top_n_stations_sql_ranking:
  "(\<exists>mn ss. (m, mn, ss) \<in> set (top_n_stations_sql mname tbl start end' n) \<and> s \<in> set ss) \<longleftrightarrow>
   (\<exists>x\<in>set tbl. month x = m \<and> station x = s \<and> start \<le> m \<and> m \<le> end' \<and>
                 int (competition_rank tbl x) \<le> n)"
  (is "?L \<longleftrightarrow> ?R")
proof -
  have "?L \<longleftrightarrow> (\<exists>y\<in>set (inner_select mname tbl start end').
                  int (rr_rank y) \<le> n \<and> rr_month y = m \<and> rr_station y = s)"
    by (rule top_n_member)
  also have "\<dots> \<longleftrightarrow> (\<exists>x\<in>{x \<in> set tbl. start \<le> month x \<and> month x \<le> end'}.
                  int (competition_rank tbl x) \<le> n \<and> month x = m \<and> station x = s)"
    unfolding set_inner_select bex_simps(7) by simp
  also have "\<dots> \<longleftrightarrow> ?R" by blast
  finally show ?thesis .
qed

text \<open>The text of the report and the reading of the engine.\<close>

lemma contains_Nil: "contains [] s"
  by (cases s) simp_all

lemma contains_prepend: "contains p s \<Longrightarrow> contains p (t @ s)"
  by (induction t) auto

lemma contains_append: "contains p s \<Longrightarrow> contains p (s @ t)"
proof (induction s)
  case Nil
  then show ?case by (simp add: contains_Nil)
next
  case (Cons c cs)
  show ?case
  proof (cases "take (length p) (c # cs) = p")
    case True
    then have "length (take (length p) (c # cs)) = length p"
      by simp
    then have "length p \<le> length (c # cs)"
      by (simp add: min_def split: if_splits)
    then have "take (length p) ((c # cs) @ t) = take (length p) (c # cs)"
      unfolding take_append by simp
    with True show ?thesis by simp
  next
    case False
    with Cons.prems have "contains p cs" by simp
    then have "contains p (cs @ t)" by (rule Cons.IH)
    then show ?thesis by simp
  qed
qed

lemma contains_cte_text:
  assumes "contains p qry"
  shows "contains p (cte_text tbl subqry qry)"
proof -
  have "cte_text tbl subqry qry =
          (nl @ ''        WITH '' @ tbl @ '' AS ('' @ subqry @ '')'' @ nl @ ''        '') @
          (qry @ nl @ ''        '')"
    by (simp add: cte_text_def)
  moreover from assms have "contains p (qry @ nl @ ''        '')"
    by (rule contains_append)
  ultimately show ?thesis by (simp only: contains_prepend)
qed

lemma reads_as_top_n_qry: "reads_as_top_n top_n_stations_qry"
proof -
  have 1: "contains ''SELECT month, month_name, array_agg(station) AS top_stations''
             top_n_stations_qry"
    by (simp add: top_n_stations_qry_def config_defs)
  have 2: "contains (''rank() OVER'' @ nl @
                ''                    (PARTITION BY month ORDER BY num_services DESC) AS rank,'')
             top_n_stations_qry"
    by (simp add: top_n_stations_qry_def config_defs)
  have 3: "contains (''FROM '' @ SVCS_BY_MONTH_TBL_NAME @ nl) top_n_stations_qry"
    by (simp add: top_n_stations_qry_def config_defs)
  have 4: "contains ''WHERE month BETWEEN $1 AND $2'' top_n_stations_qry"
    by (simp add: top_n_stations_qry_def config_defs)
  have 5: "contains ''WHERE rank <= $3'' top_n_stations_qry"
    by (simp add: top_n_stations_qry_def config_defs)
  have 6: "contains ''GROUP BY ALL'' top_n_stations_qry"
    by (simp add: top_n_stations_qry_def config_defs)
  have 7: "contains ''ORDER BY month;'' top_n_stations_qry"
    by (simp add: top_n_stations_qry_def config_defs)
  from 1 2 3 4 5 6 7 show ?thesis
    unfolding reads_as_top_n_def by (intro conjI)
qed

lemma reads_as_top_n_cte_text:
  "reads_as_top_n qry \<Longrightarrow> reads_as_top_n (cte_text tbl subqry qry)"
  unfolding reads_as_top_n_def by (intro conjI contains_cte_text) simp_all

lemma reads_as_top_n_sent:
  assumes "sent_qry a (TopNStationsInPeriod n start end') = Inr q"
  shows "reads_as_top_n q"
proof (cases "is_remote a")
  case False
  with assms have "q = top_n_stations_qry" by (simp add: sent_qry_def)
  then show ?thesis by (simp add: reads_as_top_n_qry)
next
  case True
  with assms obtain subqry where "q = cte_text SVCS_BY_MONTH_TBL_NAME subqry top_n_stations_qry"
    by (auto simp: sent_qry_def add_cte_def split: option.splits if_splits)
  then show ?thesis by (simp add: reads_as_top_n_cte_text reads_as_top_n_qry)
qed

lemma three_column_builder:
  "with_column (with_column (with_column (TableMaker_init t) c1) c2) c3 =
     \<lparr>table = Table_init t, cols = [c1, c2, c3], rows = []\<rparr>"
  by (simp add: with_column_def TableMaker_init_def)

lemma with_rows_three_columns:
  assumes "list_all (\<lambda>row. length row = 3) R"
  shows "with_rows \<lparr>table = T, cols = [c1, c2, c3], rows = []\<rparr> R =
           (None, \<lparr>table = T, cols = [c1, c2, c3], rows = R\<rparr>)"
  using assms with_rows_ok [of "\<lparr>table = T, cols = [c1, c2, c3], rows = []\<rparr>" R]
  by (simp add: numeral_3_eq_3)

lemma top_n_call_result:
  assumes sent: "sent_qry a (TopNStationsInPeriod n start end') = Inr q"
    and res: "snd (eng (con a) q [start, end', n]) = Inr R"
    and shape: "list_all (\<lambda>row. length row = 3) R"
  shows "fst (call eng str a (TopNStationsInPeriod n start end')) =
           (if R = [] then Inl ErrNoResults
            else Inr \<lparr>title = ''Top '' @ str_int n @ '' Stations in Months '' @
                               str_int start @ ''-'' @ str_int end',
                      columns = [''month'', ''month_name'', ''top_stations''],
                      table_rows = map (map str) R\<rparr>)"
proof -
  have q: "(if is_remote a then add_cte a top_n_stations_qry SVCS_BY_MONTH_TBL_NAME
            else Inr top_n_stations_qry) = Inr q"
    using sent by (cases "is_remote a") (simp_all add: sent_qry_def)
  obtain db' where e: "eng (con a) q [start, end', n] = (db', Inr R)"
    using res by (cases "eng (con a) q [start, end', n]") simp
  show ?thesis
    unfolding call_def report_call.case get_top_n_stations_in_period_def q three_column_builder
    by (simp add: execute_def e rows_then_build_def with_rows_three_columns [OF shape]
          build_eq Table_init_def)
qed


lemma sql_top_n_rows:
  assumes "sql_top_n mname tbl [start, end', n] = Some R"
  shows "R = map (\<lambda>(m, mn, ss). [IntCell m, StrCell mn, ListCell ss])
               (top_n_stations_sql mname tbl start end' n)"
  using assms by (simp add: sql_top_n_def split: if_splits)

lemma cell_row_mem:
  "[IntCell m, StrCell mn, ListCell ss] \<in>
     set (map (\<lambda>(m, mn, ss). [IntCell m, StrCell mn, ListCell ss]) xs) \<longleftrightarrow>
   (m, mn, ss) \<in> set xs"
  by (induction xs) auto

text \<open>
  Claim C8. Take a session on which \<open>get_top_n_stations_in_period(n, start, end)\<close>
  composes its statement, values for which the reading above is defined, and an engine
  that answers a statement with the clauses of that reading by its rows when \<open>start\<close>,
  \<open>end\<close>, \<open>n\<close> are bound to \<open>$1\<close>, \<open>$2\<close>, \<open>$3\<close>. Then the statement the
  report sends has those clauses, the report returns the table of those rows (or raises
  \<open>ErrNoResults\<close> when there are none), and a station is in the list of a month
  exactly when the table of services has a row for it in that month, the month lies
  between \<open>start\<close> and \<open>end\<close>, and its standard competition rank is at most \<open>n\<close>:
  every station of rank at most \<open>n\<close> is there, tied or not, and no station of a
  larger rank is.
\<close>

theorem top_n_report_follows_competition_ranking:
  assumes sent: "sent_qry a (TopNStationsInPeriod n start end') = Inr q"
    and reading: "sql_top_n mname tbl [start, end', n] = Some R"
    and eng: "reads_as_top_n q \<longrightarrow> snd (eng (con a) q [start, end', n]) = Inr R"
  shows "fst (call eng str a (TopNStationsInPeriod n start end')) =
           (if R = [] then Inl ErrNoResults
            else Inr \<lparr>title = ''Top '' @ str_int n @ '' Stations in Months '' @
                               str_int start @ ''-'' @ str_int end',
                      columns = [''month'', ''month_name'', ''top_stations''],
                      table_rows = map (map str) R\<rparr>) \<and>
         (\<forall>m s. (\<exists>mn ss. [IntCell m, StrCell mn, ListCell ss] \<in> set R \<and> s \<in> set ss) \<longleftrightarrow>
                (\<exists>x\<in>set tbl. month x = m \<and> station x = s \<and> start \<le> m \<and> m \<le> end' \<and>
                              int (competition_rank tbl x) \<le> n))"
proof (intro conjI allI)
  from sent have "reads_as_top_n q" by (rule reads_as_top_n_sent)
  with eng have res: "snd (eng (con a) q [start, end', n]) = Inr R" by simp
  have R: "R = map (\<lambda>(m, mn, ss). [IntCell m, StrCell mn, ListCell ss])
                   (top_n_stations_sql mname tbl start end' n)"
    using reading by (rule sql_top_n_rows)
  have shape: "list_all (\<lambda>row. length row = 3) R"
    unfolding R by (simp add: list_all_iff split: prod.splits)
  from sent res shape
  show "fst (call eng str a (TopNStationsInPeriod n start end')) =
           (if R = [] then Inl ErrNoResults
            else Inr \<lparr>title = ''Top '' @ str_int n @ '' Stations in Months '' @
                               str_int start @ ''-'' @ str_int end',
                      columns = [''month'', ''month_name'', ''top_stations''],
                      table_rows = map (map str) R\<rparr>)"
    by (rule top_n_call_result)
  fix m s
  have "(\<exists>mn ss. [IntCell m, StrCell mn, ListCell ss] \<in> set R \<and> s \<in> set ss) \<longleftrightarrow>
        (\<exists>mn ss. (m, mn, ss) \<in> set (top_n_stations_sql mname tbl start end' n) \<and> s \<in> set ss)"
    unfolding R by (simp only: cell_row_mem)
  then show "(\<exists>mn ss. [IntCell m, StrCell mn, ListCell ss] \<in> set R \<and> s \<in> set ss) \<longleftrightarrow>
        (\<exists>x\<in>set tbl. month x = m \<and> station x = s \<and> start \<le> m \<and> m \<le> end' \<and>
                      int (competition_rank tbl x) \<le> n)"
    by (simp only: top_n_stations_sql_ranking)
qed


lemma scenario_top_n:
  "top_n_stations_sql scenario_month_name scenario_tbl 6 8 2 =
     [(6, ''June'', [''A'', ''B'', ''C'']), (7, ''July'', [''E'', ''F'', ''G''])]"
  by (simp add: top_n_stations_sql_def inner_select_def scenario_tbl_def
        scenario_month_name_def Let_def)

lemma scenario_reading:
  "sql_top_n scenario_month_name scenario_tbl [6, 8, 2] =
     Some [[IntCell 6, StrCell ''June'', ListCell [''A'', ''B'', ''C'']],
           [IntCell 7, StrCell ''July'', ListCell [''E'', ''F'', ''G'']]]"
proof -
  have r: "list_all in_int64 [6, 8, 2]"
    by (simp add: in_int64_def)
  have mo: "list_all (\<lambda>x. 1 \<le> month x \<and> month x \<le> 12) scenario_tbl"
    by (simp add: scenario_tbl_def)
  show ?thesis
    unfolding sql_top_n_def
    by (simp only: list.case r mo scenario_top_n if_True simp_thms list.map prod.case)
qed

text \<open>
  The scenario on a remote session, with \<open>n = 2\<close> over the months 6 to 8: the three
  tied stations of month 6 are all in, the fourth (rank 4) is out.
\<close>

theorem top_n_report_follows_competition_ranking_witness:
  "fst (call scenario_engine cell_str (snd (Analyzer_init scenario_engine () None))
          (TopNStationsInPeriod 2 6 8)) =
     Inr \<lparr>title = ''Top 2 Stations in Months 6-8'',
          columns = [''month'', ''month_name'', ''top_stations''],
          table_rows = [[''6'', ''June'', ''['' @ sq @ ''A'' @ sq @ '', '' @ sq @ ''B'' @ sq @
                                           '', '' @ sq @ ''C'' @ sq @ '']''],
                        [''7'', ''July'', ''['' @ sq @ ''E'' @ sq @ '', '' @ sq @ ''F'' @ sq @
                                           '', '' @ sq @ ''G'' @ sq @ '']'']]\<rparr> \<and>
   (\<exists>x\<in>set scenario_tbl. month x = 6 \<and> station x = ''C'' \<and>
                          int (competition_rank scenario_tbl x) \<le> 2) \<and>
   \<not> (\<exists>x\<in>set scenario_tbl. month x = 6 \<and> station x = ''D'' \<and>
                            int (competition_rank scenario_tbl x) \<le> 2)"
proof -
  let ?a = "snd (Analyzer_init scenario_engine () None)"
  let ?q = "cte_text SVCS_BY_MONTH_TBL_NAME (svcs_by_month_subqry SVCS_CSV_URL) top_n_stations_qry"
  let ?R = "[[IntCell 6, StrCell ''June'', ListCell [''A'', ''B'', ''C'']],
             [IntCell 7, StrCell ''July'', ListCell [''E'', ''F'', ''G'']]]"
  have sent: "sent_qry ?a (TopNStationsInPeriod 2 6 8) = Inr ?q"
    using tbl_names_distinct
    by (simp add: sent_qry_def remote_init is_remote_def add_cte_def svcs_by_month_subqry_def)
  have eng: "reads_as_top_n ?q \<longrightarrow> snd (scenario_engine (con ?a) ?q [6, 8, 2]) = Inr ?R"
    by (simp add: scenario_engine_def scenario_reading)
  note main = top_n_report_follows_competition_ranking
               [where eng = scenario_engine and str = cell_str, OF sent scenario_reading eng]
  have strs: "map (map cell_str) ?R =
                [[''6'', ''June'', ''['' @ sq @ ''A'' @ sq @ '', '' @ sq @ ''B'' @ sq @
                                    '', '' @ sq @ ''C'' @ sq @ '']''],
                 [''7'', ''July'', ''['' @ sq @ ''E'' @ sq @ '', '' @ sq @ ''F'' @ sq @
                                    '', '' @ sq @ ''G'' @ sq @ '']'']]"
    and ttl: "''Top '' @ str_int 2 @ '' Stations in Months '' @ str_int 6 @ ''-'' @ str_int 8 =
              ''Top 2 Stations in Months 6-8''"
    by (simp_all add: str_int_def str_nat.simps py_repr_def repr_char_def Let_def)
  from main have "fst (call scenario_engine cell_str ?a (TopNStationsInPeriod 2 6 8)) =
     Inr \<lparr>title = ''Top '' @ str_int 2 @ '' Stations in Months '' @ str_int 6 @ ''-'' @ str_int 8,
          columns = [''month'', ''month_name'', ''top_stations''],
          table_rows = map (map cell_str) ?R\<rparr>"
    by simp
  then have 1: "fst (call scenario_engine cell_str ?a (TopNStationsInPeriod 2 6 8)) =
     Inr \<lparr>title = ''Top 2 Stations in Months 6-8'',
          columns = [''month'', ''month_name'', ''top_stations''],
          table_rows = [[''6'', ''June'', ''['' @ sq @ ''A'' @ sq @ '', '' @ sq @ ''B'' @ sq @
                                           '', '' @ sq @ ''C'' @ sq @ '']''],
                        [''7'', ''July'', ''['' @ sq @ ''E'' @ sq @ '', '' @ sq @ ''F'' @ sq @
                                           '', '' @ sq @ ''G'' @ sq @ '']'']]\<rparr>"
    by (simp only: strs ttl)
  from main have iff: "(\<exists>mn ss. [IntCell m, StrCell mn, ListCell ss] \<in> set ?R \<and> s \<in> set ss) \<longleftrightarrow>
      (\<exists>x\<in>set scenario_tbl. month x = m \<and> station x = s \<and> 6 \<le> m \<and> m \<le> 8 \<and>
                             int (competition_rank scenario_tbl x) \<le> 2)" for m s
    by blast
  have 2: "\<exists>x\<in>set scenario_tbl. month x = 6 \<and> station x = ''C'' \<and>
                          int (competition_rank scenario_tbl x) \<le> 2"
    using iff [of 6 "''C''"] by auto
  have 3: "\<not> (\<exists>x\<in>set scenario_tbl. month x = 6 \<and> station x = ''D'' \<and>
                            int (competition_rank scenario_tbl x) \<le> 2)"
    using iff [of 6 "''D''"] by auto
  from 1 2 3 show ?thesis by (intro conjI)
qed

end
